theory Spec2Isabelle
  imports Main
begin

section \<open>SimpleVector: a shallow embedding of simple\_vector.h\<close>

text \<open>
  The class template \<open>SimpleVector<Type>\<close> owns a raw array (\<open>ArrayPtr<Type> items_\<close>)
  and two counters. The embedding keeps the three fields, passes the object explicitly
  and returns the updated object. Undefined behaviour (an access outside the raw array
  or through a null pointer) and the exception thrown by \<open>At\<close> are values of the
  type \<open>error\<close>; a member function that can hit either returns \<open>error + result\<close>.

  Integer types. \<open>size_t\<close> counts are natural numbers: a raw array that exists has
  fewer than \<open>2 ^ 63\<close> slots, so \<open>GetCapacity() * 2\<close> and \<open>size_ + 1\<close> do not wrap.
  The two conversions of a pointer difference that the source writes,
  \<open>const int index = pos - begin()\<close> in \<open>Insert\<close> and
  \<open>size_t index = pos - begin()\<close> in \<open>Erase\<close>, are written out for a 32-bit
  \<open>int\<close> and a 64-bit \<open>size_t\<close>.

  Moving an element is modelled as copying it: every slot that is moved from is either
  overwritten or lies outside the live range afterwards.

  References. \<open>PushBack\<close> and \<open>Insert\<close> take the new element as \<open>const Type&\<close> or
  \<open>Type&&\<close> and read it only after \<open>DoubleIfFull()\<close> (and, in \<open>Insert\<close>, after the
  shift). The argument is therefore a reference in the embedding too: to an object outside
  the raw array, or to a slot of the raw array of \<open>*this\<close>, as in \<open>v.PushBack(v[0])\<close>.
\<close>

subsection \<open>Errors, pointers and the fields\<close>

datatype error =
    OutOfRange \<comment> \<open>\<open>std::out_of_range\<close>, thrown by \<open>At\<close>\<close>
  | Undefined \<comment> \<open>undefined behaviour: access outside the raw array or through null\<close>

text \<open>
  An iterator is a raw pointer \<open>Type*\<close>. \<open>ItemPtr k\<close> is \<open>&items_[0] + k\<close>, a position
  relative to the raw array of the object at hand; \<open>NullPtr k\<close> is \<open>nullptr + k\<close>.
  Pointer arithmetic alone never fails; reading or writing through a pointer does.
\<close>

datatype ptr = NullPtr int | ItemPtr int

fun ptr_add :: "ptr \<Rightarrow> int \<Rightarrow> ptr" where
  "ptr_add (NullPtr i) k = NullPtr (i + k)"
| "ptr_add (ItemPtr i) k = ItemPtr (i + k)"

fun ptr_diff :: "ptr \<Rightarrow> ptr \<Rightarrow> error + int" where
  "ptr_diff (NullPtr i) (NullPtr j) = Inr (i - j)"
| "ptr_diff (ItemPtr i) (ItemPtr j) = Inr (i - j)"
| "ptr_diff (NullPtr i) (ItemPtr j) = Inl Undefined"
| "ptr_diff (ItemPtr i) (NullPtr j) = Inl Undefined"

definition to_int :: "int \<Rightarrow> int" where
  \<comment> \<open>conversion of a \<open>ptrdiff_t\<close> to \<open>int\<close> (32 bits, two's complement)\<close>
  "to_int d = (d + 2 ^ 31) mod 2 ^ 32 - 2 ^ 31"

definition to_size_t :: "int \<Rightarrow> nat" where
  \<comment> \<open>conversion of a signed integer to \<open>size_t\<close> (64 bits): a negative value
      wraps around, a non-negative one is kept\<close>
  "to_size_t d = (if 0 \<le> d then nat d else nat (d mod 2 ^ 64))"

record 'a SimpleVector =
  items_v :: "'a list" \<comment> \<open>\<open>items_\<close>: the slots of the raw array\<close>
  size_v :: nat \<comment> \<open>\<open>size_\<close>\<close>
  capacity_v :: nat \<comment> \<open>\<open>capacity_\<close>\<close>

subsection \<open>The collaborators: ArrayPtr and the algorithms of the standard library\<close>

definition ArrayPtr :: "'a \<Rightarrow> nat \<Rightarrow> 'a list" where
  \<comment> \<open>Modelled from the spec: array\_ptr.h is not part of the sources. The sized
      constructor of the buffer allocates \<open>n\<close> slots, each holding the default value
      \<open>Type{}\<close> (passed as \<open>dflt\<close>); for \<open>n = 0\<close> it holds no allocation.\<close>
  "ArrayPtr dflt n = replicate n dflt"

definition ArrayPtr_empty :: "'a list" where
  \<comment> \<open>Modelled from the spec: array\_ptr.h is not part of the sources. A buffer that is
      default-constructed, and a buffer that has been moved from, owns no allocation.\<close>
  "ArrayPtr_empty = []"

definition std_fill :: "'a list \<Rightarrow> ptr \<Rightarrow> ptr \<Rightarrow> 'a \<Rightarrow> error + 'a list" where
  \<comment> \<open>\<open>std::fill(first, last, value)\<close> on the raw array \<open>buf\<close>\<close>
  "std_fill buf p_first p_last v =
     (if p_first = p_last then Inr buf
      else case (p_first, p_last) of
        (ItemPtr i, ItemPtr j) \<Rightarrow>
          if 0 \<le> i \<and> i < j \<and> j \<le> int (length buf)
          then Inr (take (nat i) buf @ replicate (nat (j - i)) v @ drop (nat j) buf)
          else Inl Undefined
      | _ \<Rightarrow> Inl Undefined)"

definition std_copy :: "'a list \<Rightarrow> ptr \<Rightarrow> ptr \<Rightarrow> 'a list \<Rightarrow> ptr \<Rightarrow> error + 'a list" where
  \<comment> \<open>\<open>std::copy(first, last, d_first)\<close> and \<open>std::move(first, last, d_first)\<close> from the
      raw array \<open>src\<close> into another raw array \<open>dst\<close>; the result is the new \<open>dst\<close>\<close>
  "std_copy src p_first p_last dst d_first =
     (if p_first = p_last then Inr dst
      else case (p_first, p_last, d_first) of
        (ItemPtr i, ItemPtr j, ItemPtr k) \<Rightarrow>
          if 0 \<le> i \<and> i < j \<and> j \<le> int (length src) \<and> 0 \<le> k \<and> k + (j - i) \<le> int (length dst)
          then Inr (take (nat k) dst @ take (nat (j - i)) (drop (nat i) src)
                    @ drop (nat (k + (j - i))) dst)
          else Inl Undefined
      | _ \<Rightarrow> Inl Undefined)"

definition std_copy_within :: "'a list \<Rightarrow> ptr \<Rightarrow> ptr \<Rightarrow> ptr \<Rightarrow> error + 'a list" where
  \<comment> \<open>\<open>std::copy(first, last, d_first)\<close> inside one raw array, first to last;
      \<open>d_first\<close> must not lie in \<open>[first, last)\<close>\<close>
  "std_copy_within buf p_first p_last d_first =
     (if p_first = p_last then Inr buf
      else case d_first of
        ItemPtr k \<Rightarrow>
          (case (p_first, p_last) of
             (ItemPtr i, ItemPtr j) \<Rightarrow>
               if i \<le> k \<and> k < j then Inl Undefined
               else std_copy buf p_first p_last buf d_first
           | _ \<Rightarrow> Inl Undefined)
      | _ \<Rightarrow> Inl Undefined)"

definition std_move_backward :: "'a list \<Rightarrow> ptr \<Rightarrow> ptr \<Rightarrow> ptr \<Rightarrow> error + 'a list" where
  \<comment> \<open>\<open>std::move_backward(first, last, d_last)\<close> inside one raw array, last to first:
      the elements of \<open>[first, last)\<close> end up in the range that ends at \<open>d_last\<close>;
      \<open>d_last\<close> must not lie in \<open>(first, last]\<close>\<close>
  "std_move_backward buf p_first p_last d_last =
     (if p_first = p_last then Inr buf
      else case d_last of
        ItemPtr k \<Rightarrow>
          (case (p_first, p_last) of
             (ItemPtr i, ItemPtr j) \<Rightarrow>
               if i < k \<and> k \<le> j then Inl Undefined
               else std_copy buf p_first p_last buf (ItemPtr (k - (j - i)))
           | _ \<Rightarrow> Inl Undefined)
      | _ \<Rightarrow> Inl Undefined)"

subsection \<open>Observers and iterators\<close>

definition GetSize :: "'a SimpleVector \<Rightarrow> nat" where
  "GetSize s = size_v s"

definition GetCapacity :: "'a SimpleVector \<Rightarrow> nat" where
  "GetCapacity s = capacity_v s"

definition IsEmpty :: "'a SimpleVector \<Rightarrow> bool" where
  "IsEmpty s = (GetSize s = 0)"

definition begin_v :: "'a SimpleVector \<Rightarrow> ptr" where
  \<comment> \<open>\<open>begin()\<close> of a non-const object\<close>
  "begin_v s = (if IsEmpty s then NullPtr 0 else ItemPtr 0)"

definition end_v :: "'a SimpleVector \<Rightarrow> ptr" where
  \<comment> \<open>\<open>end()\<close> of a non-const object\<close>
  "end_v s = (if IsEmpty s then NullPtr 0 else ItemPtr (int (GetSize s)))"

definition cbegin :: "'a SimpleVector \<Rightarrow> ptr" where
  "cbegin s = ItemPtr 0"

definition cend :: "'a SimpleVector \<Rightarrow> ptr" where
  "cend s = ItemPtr (int (GetSize s))"

definition index_read :: "'a SimpleVector \<Rightarrow> nat \<Rightarrow> error + 'a" where
  \<comment> \<open>reading \<open>(*this)[index]\<close>: unchecked, undefined outside the raw array\<close>
  "index_read s index =
     (if index < length (items_v s) then Inr (items_v s ! index) else Inl Undefined)"

definition index_write :: "'a SimpleVector \<Rightarrow> nat \<Rightarrow> 'a \<Rightarrow> error + 'a SimpleVector" where
  \<comment> \<open>the assignment \<open>(*this)[index] = value\<close>\<close>
  "index_write s index v =
     (if index < length (items_v s) then Inr (s\<lparr>items_v := (items_v s)[index := v]\<rparr>)
      else Inl Undefined)"

definition elements :: "'a SimpleVector \<Rightarrow> 'a list" where
  \<comment> \<open>the live range: the elements at the indices \<open>[0, Size())\<close>, in order\<close>
  "elements s = take (GetSize s) (items_v s)"

definition well_formed :: "'a SimpleVector \<Rightarrow> bool" where
  \<comment> \<open>a container state: the raw array has \<open>capacity_\<close> slots and \<open>size_\<close> of them are live\<close>
  "well_formed s \<longleftrightarrow> length (items_v s) = capacity_v s \<and> size_v s \<le> capacity_v s"

subsection \<open>Constructors without reallocation, swap, PopBack, Clear, At\<close>

definition SimpleVector_default :: "'a SimpleVector" where
  "SimpleVector_default = \<lparr>items_v = ArrayPtr_empty, size_v = 0, capacity_v = 0\<rparr>"

definition SimpleVector_sized :: "'a \<Rightarrow> nat \<Rightarrow> 'a SimpleVector" where
  "SimpleVector_sized dflt n = \<lparr>items_v = ArrayPtr dflt n, size_v = n, capacity_v = n\<rparr>"

definition swap_v :: "'a SimpleVector \<Rightarrow> 'a SimpleVector \<Rightarrow> 'a SimpleVector \<times> 'a SimpleVector" where
  \<comment> \<open>\<open>a.swap(b)\<close>: the pair of \<open>a\<close> and \<open>b\<close> afterwards\<close>
  "swap_v a b =
     (a\<lparr>items_v := items_v b, size_v := size_v b, capacity_v := capacity_v b\<rparr>,
      b\<lparr>items_v := items_v a, size_v := size_v a, capacity_v := capacity_v a\<rparr>)"

definition PopBack :: "'a SimpleVector \<Rightarrow> 'a SimpleVector" where
  "PopBack s = (if \<not> IsEmpty s then s\<lparr>size_v := size_v s - 1\<rparr> else s)"

definition Clear :: "'a SimpleVector \<Rightarrow> 'a SimpleVector" where
  "Clear s = s\<lparr>size_v := 0\<rparr>"

definition At :: "'a SimpleVector \<Rightarrow> nat \<Rightarrow> (error + 'a) \<times> 'a SimpleVector" where
  \<comment> \<open>the non-const \<open>At\<close>: what it returns or throws, and the object afterwards\<close>
  "At s index =
     (if index \<ge> GetSize s then (Inl OutOfRange, s) else (index_read s index, s))"

text \<open>
  The const overloads. In \<open>const Type& operator[](size_t index) const\<close> the body
  \<open>return (*this)[index];\<close> has a const \<open>*this\<close>, so it calls the const overload,
  that is, itself. In \<open>const Type& At(size_t index) const\<close> the body
  \<open>return const_cast<Type&>((*this).At(index));\<close> calls the const \<open>At\<close> in the same
  way. \<open>None\<close> is a call that does not return.
\<close>

partial_function (option) index_read_const :: "'a SimpleVector \<Rightarrow> nat \<Rightarrow> (error + 'a) option" where
  "index_read_const s index = index_read_const s index"

partial_function (option) At_const :: "'a SimpleVector \<Rightarrow> nat \<Rightarrow> (error + 'a) option" where
  "At_const s index = At_const s index"

subsection \<open>Resize and Reserve\<close>

function Resize :: "'a \<Rightarrow> nat \<Rightarrow> 'a SimpleVector \<Rightarrow> error + 'a SimpleVector"
  and Reserve :: "'a \<Rightarrow> nat \<Rightarrow> 'a SimpleVector \<Rightarrow> error + 'a SimpleVector" where
  "Resize dflt new_size s =
     (if new_size < GetSize s then Inr (s\<lparr>size_v := new_size\<rparr>)
      else if new_size > GetSize s then
        (case (if new_size > GetCapacity s then Reserve dflt new_size s
               else (case std_fill (items_v s) (ptr_add (begin_v s) (int (size_v s)))
                            (ptr_add (begin_v s) (int new_size)) dflt of
                       Inl e \<Rightarrow> Inl e
                     | Inr buf \<Rightarrow> Inr (s\<lparr>items_v := buf\<rparr>))) of
           Inl e \<Rightarrow> Inl e
         | Inr s' \<Rightarrow> Inr (s'\<lparr>size_v := new_size\<rparr>))
      else Inr s)"
| "Reserve dflt new_capacity s =
     (if new_capacity > GetCapacity s then
        (case Resize dflt (GetCapacity s) (SimpleVector_sized dflt new_capacity) of
           Inl e \<Rightarrow> Inl e
         | Inr tmp \<Rightarrow>
             (case std_copy (items_v s) (begin_v s) (end_v s) (items_v tmp) (begin_v tmp) of
                Inl e \<Rightarrow> Inl e
              | Inr buf \<Rightarrow> Inr (fst (swap_v s (tmp\<lparr>items_v := buf\<rparr>)))))
      else Inr s)"
  by pat_completeness auto
termination
  by (relation "measure (\<lambda>x. case x of
          Inl (dflt, n, s) \<Rightarrow> if n > GetSize s \<and> n > GetCapacity s then 2 else 0
        | Inr (dflt, k, s) \<Rightarrow> 1)")
     (auto simp: GetSize_def GetCapacity_def SimpleVector_sized_def)

declare Resize.simps [simp del] Reserve.simps [simp del]

definition DoubleIfFull :: "'a \<Rightarrow> 'a SimpleVector \<Rightarrow> error + 'a SimpleVector" where
  "DoubleIfFull dflt s =
     (if GetSize s = GetCapacity s
      then Reserve dflt (if GetCapacity s \<noteq> 0 then GetCapacity s * 2 else 1) s
      else Inr s)"

subsection \<open>PushBack, Insert, Erase\<close>

datatype 'a cref =
    Outside 'a \<comment> \<open>a reference to an object that is no slot of the raw array, with its value\<close>
  | Element nat \<comment> \<open>a reference to \<open>items_[k]\<close> of \<open>*this\<close>, taken before the call\<close>

definition read_ref :: "'a SimpleVector \<Rightarrow> bool \<Rightarrow> 'a cref \<Rightarrow> error + 'a" where
  \<comment> \<open>reading through the reference when the object is \<open>s\<close>; \<open>released\<close> says that the
      raw array into which the reference was taken has been released since: reading
      a slot of it is then undefined\<close>
  "read_ref s released r =
     (case r of
        Outside x \<Rightarrow> Inr x
      | Element k \<Rightarrow> if released then Inl Undefined else index_read s k)"

definition PushBack :: "'a \<Rightarrow> 'a SimpleVector \<Rightarrow> 'a cref \<Rightarrow> error + 'a SimpleVector" where
  \<comment> \<open>both overloads: \<open>DoubleIfFull(); (*this)[size_++] = item;\<close>. \<open>Reserve\<close> replaces
      the raw array exactly when it changes \<open>capacity_\<close>, so the raw array of the call
      has been released when \<open>item\<close> is read iff the capacity differs\<close>
  "PushBack dflt s item =
     (case DoubleIfFull dflt s of
        Inl e \<Rightarrow> Inl e
      | Inr s1 \<Rightarrow>
          (case read_ref s1 (capacity_v s1 \<noteq> capacity_v s) item of
             Inl e \<Rightarrow> Inl e
           | Inr x \<Rightarrow>
               (case index_write s1 (size_v s1) x of
                  Inl e \<Rightarrow> Inl e
                | Inr s2 \<Rightarrow> Inr (s2\<lparr>size_v := size_v s2 + 1\<rparr>))))"

definition Insert :: "'a \<Rightarrow> 'a SimpleVector \<Rightarrow> ptr \<Rightarrow> 'a cref \<Rightarrow> error + ('a SimpleVector \<times> ptr)" where
  \<comment> \<open>both overloads; the result is the object afterwards and the returned iterator.
      \<open>value\<close> is read in \<open>(*this)[index] = value\<close>, after the growth and the shift\<close>
  "Insert dflt s pos v =
     (case ptr_diff pos (begin_v s) of
        Inl e \<Rightarrow> Inl e
      | Inr d \<Rightarrow>
          (let index = to_int d in
           case DoubleIfFull dflt s of
             Inl e \<Rightarrow> Inl e
           | Inr s1 \<Rightarrow>
               (case std_move_backward (items_v s1) (ptr_add (begin_v s1) index) (end_v s1)
                       (ptr_add (end_v s1) 1) of
                  Inl e \<Rightarrow> Inl e
                | Inr buf \<Rightarrow>
                    (case read_ref (s1\<lparr>items_v := buf\<rparr>) (capacity_v s1 \<noteq> capacity_v s) v of
                       Inl e \<Rightarrow> Inl e
                     | Inr x \<Rightarrow>
                         (case index_write (s1\<lparr>items_v := buf\<rparr>) (to_size_t index) x of
                            Inl e \<Rightarrow> Inl e
                          | Inr s2 \<Rightarrow>
                              Inr (s2\<lparr>size_v := size_v s2 + 1\<rparr>,
                                   ItemPtr (int (to_size_t index))))))))"

definition Erase :: "'a SimpleVector \<Rightarrow> ptr \<Rightarrow> error + ('a SimpleVector \<times> ptr)" where
  \<comment> \<open>the result is the object afterwards and the returned iterator. \<open>--size_\<close> is
      reached with \<open>size_ = 0\<close> on no path: on an empty object the copy before it is
      undefined (lemma \<open>Erase_empty\<close>)\<close>
  "Erase s pos =
     (case ptr_diff pos (begin_v s) of
        Inl e \<Rightarrow> Inl e
      | Inr d \<Rightarrow>
          (let index = to_size_t d;
               it = ptr_add (begin_v s) (int index) in
           case std_copy_within (items_v s) (ptr_add it 1) (end_v s) it of
             Inl e \<Rightarrow> Inl e
           | Inr buf \<Rightarrow>
               (let s1 = s\<lparr>items_v := buf, size_v := size_v s - 1\<rparr> in
                if index = GetSize s1 then Inr (s1, end_v s1)
                else Inr (s1, ItemPtr (int index)))))"

subsection \<open>The remaining constructors and the assignments\<close>

definition SimpleVector_fill :: "'a \<Rightarrow> nat \<Rightarrow> 'a \<Rightarrow> error + 'a SimpleVector" where
  \<comment> \<open>\<open>SimpleVector(size, value)\<close>\<close>
  "SimpleVector_fill dflt n v =
     (let s = SimpleVector_sized dflt n in
      case std_fill (items_v s) (begin_v s) (end_v s) v of
        Inl e \<Rightarrow> Inl e
      | Inr buf \<Rightarrow> Inr (s\<lparr>items_v := buf\<rparr>))"

definition SimpleVector_init :: "'a \<Rightarrow> 'a list \<Rightarrow> error + 'a SimpleVector" where
  \<comment> \<open>\<open>SimpleVector(std::initializer_list<Type> init)\<close>\<close>
  "SimpleVector_init dflt init =
     (let s = SimpleVector_sized dflt (length init) in
      case std_copy init (ItemPtr 0) (ItemPtr (int (length init))) (items_v s) (begin_v s) of
        Inl e \<Rightarrow> Inl e
      | Inr buf \<Rightarrow> Inr (s\<lparr>items_v := buf\<rparr>))"

definition SimpleVector_copy :: "'a \<Rightarrow> 'a SimpleVector \<Rightarrow> error + 'a SimpleVector" where
  \<comment> \<open>the copy constructor; \<open>other\<close> is const, so its \<open>begin()\<close> and \<open>end()\<close> are
      \<open>cbegin()\<close> and \<open>cend()\<close>\<close>
  "SimpleVector_copy dflt other =
     (let s = SimpleVector_sized dflt (GetSize other) in
      case std_copy (items_v other) (cbegin other) (cend other) (items_v s) (begin_v s) of
        Inl e \<Rightarrow> Inl e
      | Inr buf \<Rightarrow> Inr (s\<lparr>items_v := buf\<rparr>))"

definition SimpleVector_move :: "'a SimpleVector \<Rightarrow> 'a SimpleVector \<times> 'a SimpleVector" where
  \<comment> \<open>the move constructor: the new object and \<open>other\<close> afterwards\<close>
  "SimpleVector_move other =
     (\<lparr>items_v = items_v other, size_v = size_v other, capacity_v = capacity_v other\<rparr>,
      other\<lparr>items_v := ArrayPtr_empty, size_v := 0, capacity_v := 0\<rparr>)"

definition SimpleVector_reserve :: "'a \<Rightarrow> nat \<Rightarrow> error + 'a SimpleVector" where
  \<comment> \<open>\<open>SimpleVector(ReserveProxyObj)\<close>, with \<open>capacity_to_reserve\<close> as the argument\<close>
  "SimpleVector_reserve dflt capacity_to_reserve =
     Reserve dflt capacity_to_reserve SimpleVector_default"

definition copy_assign :: "'a \<Rightarrow> bool \<Rightarrow> 'a SimpleVector \<Rightarrow> 'a SimpleVector \<Rightarrow> error + 'a SimpleVector" where
  \<comment> \<open>\<open>operator=(const SimpleVector& rhs)\<close>; \<open>same\<close> says that \<open>this == &rhs\<close>\<close>
  "copy_assign dflt same s rhs =
     (if \<not> same then
        (case SimpleVector_copy dflt rhs of
           Inl e \<Rightarrow> Inl e
         | Inr tmp \<Rightarrow> Inr (fst (swap_v s tmp)))
      else Inr s)"

definition move_assign :: "bool \<Rightarrow> 'a SimpleVector \<Rightarrow> 'a SimpleVector \<Rightarrow> 'a SimpleVector \<times> 'a SimpleVector" where
  \<comment> \<open>\<open>operator=(SimpleVector&& rhs)\<close>: \<open>*this\<close> and \<open>rhs\<close> afterwards\<close>
  "move_assign same s rhs =
     (if \<not> same then
        (s\<lparr>items_v := items_v rhs, size_v := size_v rhs, capacity_v := capacity_v rhs\<rparr>,
         rhs\<lparr>items_v := ArrayPtr_empty, size_v := 0, capacity_v := 0\<rparr>)
      else (s, rhs))"

subsection \<open>The states a program can reach\<close>

text \<open>
  A state is reachable when a constructor returns it, or when a member function
  returns it on a reachable object (and, where it takes another object, a reachable one).
  A call that is undefined or throws produces no state.
\<close>

inductive reachable :: "'a \<Rightarrow> 'a SimpleVector \<Rightarrow> bool" for dflt :: 'a where
  r_default: "reachable dflt SimpleVector_default"
| r_sized: "reachable dflt (SimpleVector_sized dflt n)"
| r_fill: "SimpleVector_fill dflt n v = Inr s \<Longrightarrow> reachable dflt s"
| r_init: "SimpleVector_init dflt init = Inr s \<Longrightarrow> reachable dflt s"
| r_copy: "reachable dflt other \<Longrightarrow> SimpleVector_copy dflt other = Inr s \<Longrightarrow> reachable dflt s"
| r_move: "reachable dflt other \<Longrightarrow> reachable dflt (fst (SimpleVector_move other))"
| r_moved_from: "reachable dflt other \<Longrightarrow> reachable dflt (snd (SimpleVector_move other))"
| r_reserve_ctor: "SimpleVector_reserve dflt k = Inr s \<Longrightarrow> reachable dflt s"
| r_PushBack: "reachable dflt s \<Longrightarrow> PushBack dflt s v = Inr s' \<Longrightarrow> reachable dflt s'"
| r_PopBack: "reachable dflt s \<Longrightarrow> reachable dflt (PopBack s)"
| r_Insert: "reachable dflt s \<Longrightarrow> Insert dflt s pos v = Inr (s', it) \<Longrightarrow> reachable dflt s'"
| r_Erase: "reachable dflt s \<Longrightarrow> Erase s pos = Inr (s', it) \<Longrightarrow> reachable dflt s'"
| r_Clear: "reachable dflt s \<Longrightarrow> reachable dflt (Clear s)"
| r_Resize: "reachable dflt s \<Longrightarrow> Resize dflt n s = Inr s' \<Longrightarrow> reachable dflt s'"
| r_Reserve: "reachable dflt s \<Longrightarrow> Reserve dflt k s = Inr s' \<Longrightarrow> reachable dflt s'"
| r_swap_fst: "reachable dflt a \<Longrightarrow> reachable dflt b \<Longrightarrow> reachable dflt (fst (swap_v a b))"
| r_swap_snd: "reachable dflt a \<Longrightarrow> reachable dflt b \<Longrightarrow> reachable dflt (snd (swap_v a b))"
| r_copy_assign: "reachable dflt s \<Longrightarrow> reachable dflt rhs \<Longrightarrow>
     copy_assign dflt same s rhs = Inr s' \<Longrightarrow> reachable dflt s'"
| r_move_assign_fst: "reachable dflt s \<Longrightarrow> reachable dflt rhs \<Longrightarrow>
     reachable dflt (fst (move_assign same s rhs))"
| r_move_assign_snd: "reachable dflt s \<Longrightarrow> reachable dflt rhs \<Longrightarrow>
     reachable dflt (snd (move_assign same s rhs))"

section \<open>What Resize, Reserve and DoubleIfFull compute\<close>

lemmas obs_defs = GetSize_def GetCapacity_def IsEmpty_def begin_v_def end_v_def

lemma Resize_shrink: "n < size_v s \<Longrightarrow> Resize dflt n s = Inr (s\<lparr>size_v := n\<rparr>)"
  by (simp add: Resize.simps GetSize_def)

lemma Resize_same: "Resize dflt (size_v s) s = Inr s"
  by (simp add: Resize.simps GetSize_def)

lemma Reserve_noop: "k \<le> capacity_v s \<Longrightarrow> Reserve dflt k s = Inr s"
  by (simp add: Reserve.simps GetCapacity_def)

text \<open>
  A growing \<open>Reserve\<close>: the temporary has \<open>k\<close> default-valued slots, its size is cut
  to the capacity of \<open>*this\<close> by \<open>tmp.Resize(GetCapacity())\<close>, the live elements are
  moved over, and the swap adopts the temporary's three fields.
\<close>

lemma Reserve_grow:
  assumes "size_v s \<le> length (items_v s)" and "size_v s \<le> capacity_v s" and "capacity_v s < k"
  shows "Reserve dflt k s =
           Inr (s\<lparr>items_v := take (size_v s) (items_v s) @ replicate (k - size_v s) dflt,
                  size_v := capacity_v s, capacity_v := k\<rparr>)"
proof -
  have tmp: "Resize dflt (capacity_v s) \<lparr>items_v = replicate k dflt, size_v = k, capacity_v = k\<rparr>
      = Inr \<lparr>items_v = replicate k dflt, size_v = capacity_v s, capacity_v = k\<rparr>"
    using assms(3) by (simp add: Resize_shrink)
  show ?thesis
  proof (cases "size_v s = 0")
    case True
    then show ?thesis
      using assms
      by (simp add: Reserve.simps tmp std_copy_def obs_defs swap_v_def
          SimpleVector_sized_def ArrayPtr_def)
  next
    case False
    then show ?thesis
      using assms
      by (simp add: Reserve.simps tmp std_copy_def obs_defs swap_v_def
          SimpleVector_sized_def ArrayPtr_def)
  qed
qed

lemma DoubleIfFull_room: "size_v s \<noteq> capacity_v s \<Longrightarrow> DoubleIfFull dflt s = Inr s"
  by (simp add: DoubleIfFull_def obs_defs)

lemma DoubleIfFull_full:
  assumes "well_formed s" and "size_v s = capacity_v s"
  shows "DoubleIfFull dflt s =
           Inr (s\<lparr>items_v := items_v s @ replicate (if capacity_v s = 0 then 1 else capacity_v s) dflt,
                  capacity_v := (if capacity_v s = 0 then 1 else 2 * capacity_v s)\<rparr>)"
  using assms by (simp add: DoubleIfFull_def obs_defs well_formed_def Reserve_grow)

lemma DoubleIfFull_spec:
  assumes "well_formed s"
  obtains s1 where "DoubleIfFull dflt s = Inr s1" and "well_formed s1"
    and "size_v s1 = size_v s" and "size_v s1 < capacity_v s1"
    and "take (size_v s) (items_v s1) = take (size_v s) (items_v s)"
    and "capacity_v s1 = (if size_v s = capacity_v s
           then (if capacity_v s = 0 then 1 else 2 * capacity_v s) else capacity_v s)"
proof (cases "size_v s = capacity_v s")
  case True
  show ?thesis
    by (rule that [OF DoubleIfFull_full [OF assms True]])
       (use assms True in \<open>auto simp: well_formed_def\<close>)
next
  case False
  show ?thesis
    by (rule that [OF DoubleIfFull_room [OF False]])
       (use assms False in \<open>auto simp: well_formed_def\<close>)
qed

section \<open>Conversions and the shift of Insert\<close>

lemma to_int_small: "0 \<le> d \<Longrightarrow> d < 2 ^ 31 \<Longrightarrow> to_int d = d"
  by (simp add: to_int_def)

lemma to_size_t_nat: "to_size_t (int n) = n"
  by (simp add: to_size_t_def)

lemma shifted_take:
  assumes "i < n" and "n < length buf"
  shows "take (Suc n) ((take (Suc i) buf @ take (n - i) (drop i buf) @ drop (Suc n) buf)[i := v])
           = take i buf @ v # take (n - i) (drop i buf)"
proof -
  have i: "i < length buf" using assms by simp
  have "(take (Suc i) buf @ take (n - i) (drop i buf) @ drop (Suc n) buf)[i := v]
          = (take (Suc i) buf)[i := v] @ take (n - i) (drop i buf) @ drop (Suc n) buf"
    using i by (simp add: list_update_append)
  also have "(take (Suc i) buf)[i := v] = take i buf @ [v]"
    using i by (simp add: take_Suc_conv_app_nth list_update_append)
  finally show ?thesis
    using assms by (simp add: Suc_diff_le)
qed

lemma move_backward_Insert:
  assumes "i \<le> size_v s1" and "size_v s1 < length (items_v s1)"
  obtains buf where
    "std_move_backward (items_v s1) (ptr_add (begin_v s1) (int i)) (end_v s1)
        (ptr_add (end_v s1) 1) = Inr buf"
    and "length buf = length (items_v s1)"
    and "take (Suc (size_v s1)) (buf[i := v])
           = take i (items_v s1) @ v # take (size_v s1 - i) (drop i (items_v s1))"
proof (cases "i = size_v s1")
  case True
  have "std_move_backward (items_v s1) (ptr_add (begin_v s1) (int i)) (end_v s1)
        (ptr_add (end_v s1) 1) = Inr (items_v s1)"
    using True by (simp add: std_move_backward_def obs_defs)
  moreover have "take (Suc (size_v s1)) ((items_v s1)[i := v])
           = take i (items_v s1) @ v # take (size_v s1 - i) (drop i (items_v s1))"
    using True assms(2) by (simp add: take_Suc_conv_app_nth)
  ultimately show ?thesis using that by blast
next
  case False
  then have lt: "i < size_v s1" using assms(1) by simp
  let ?n = "size_v s1" and ?b = "items_v s1"
  have "std_move_backward ?b (ptr_add (begin_v s1) (int i)) (end_v s1) (ptr_add (end_v s1) 1)
          = Inr (take (Suc i) ?b @ take (?n - i) (drop i ?b) @ drop (Suc ?n) ?b)"
    using lt assms(2)
    by (simp add: std_move_backward_def std_copy_def obs_defs nat_diff_distrib' nat_add_distrib
        Suc_nat_eq_nat_zadd1)
  moreover have "length (take (Suc i) ?b @ take (?n - i) (drop i ?b) @ drop (Suc ?n) ?b) = length ?b"
    using lt assms(2) by simp
  ultimately show ?thesis
    using that shifted_take [OF lt assms(2)] by metis
qed

lemma Insert_shifts:
  assumes wf: "well_formed s" and le: "i \<le> size_v s" and small: "i < 2 ^ 31"
  shows "\<exists>s'. Insert dflt s (ptr_add (begin_v s) (int i)) (Outside v) = Inr (s', ItemPtr (int i))
           \<and> well_formed s'
           \<and> GetSize s' = GetSize s + 1
           \<and> index_read s' i = Inr v
           \<and> elements s' = take i (elements s) @ v # drop i (elements s)
           \<and> GetCapacity s' =
               (if GetSize s = GetCapacity s
                then (if GetCapacity s = 0 then 1 else 2 * GetCapacity s)
                else GetCapacity s)"
proof -
  let ?n = "size_v s"
  have d: "ptr_diff (ptr_add (begin_v s) (int i)) (begin_v s) = Inr (int i)"
    by (simp add: obs_defs)
  have "int i < 2 ^ 31"
    using small by (metis of_nat_less_iff of_nat_numeral of_nat_power)
  then have ti: "to_int (int i) = int i"
    by (simp add: to_int_small)
  have ts: "to_size_t (int i) = i"
    by (rule to_size_t_nat)
  obtain s1 where s1: "DoubleIfFull dflt s = Inr s1" "well_formed s1"
    "size_v s1 = ?n" "size_v s1 < capacity_v s1"
    "take ?n (items_v s1) = take ?n (items_v s)"
    "capacity_v s1 = (if ?n = capacity_v s
           then (if capacity_v s = 0 then 1 else 2 * capacity_v s) else capacity_v s)"
    using DoubleIfFull_spec [OF wf] by blast
  have len: "size_v s1 < length (items_v s1)"
    using s1 by (simp add: well_formed_def)
  have le1: "i \<le> size_v s1"
    using le s1(3) by simp
  obtain buf where buf:
    "std_move_backward (items_v s1) (ptr_add (begin_v s1) (int i)) (end_v s1)
        (ptr_add (end_v s1) 1) = Inr buf"
    "length buf = length (items_v s1)"
    "take (Suc (size_v s1)) (buf[i := v])
           = take i (items_v s1) @ v # take (size_v s1 - i) (drop i (items_v s1))"
    using move_backward_Insert [OF le1 len] by blast
  have "take i (items_v s1) = take i (take ?n (items_v s1))"
    using le by (simp add: min_absorb1)
  then have pre_eq: "take i (items_v s1) = take i (elements s)"
    using s1(5) by (simp add: elements_def GetSize_def)
  have "take (?n - i) (drop i (items_v s1)) = drop i (take ?n (items_v s1))"
    by (simp add: drop_take)
  then have post_eq: "take (?n - i) (drop i (items_v s1)) = drop i (elements s)"
    using s1(5) by (simp add: elements_def GetSize_def)
  have el: "take (Suc ?n) (buf[i := v]) = take i (elements s) @ v # drop i (elements s)"
    using buf(3) pre_eq post_eq s1(3) by simp
  have ilen: "i < length buf"
    using le1 len buf(2) by simp
  show ?thesis
    using s1 buf(1,2) len ilen el
    by (simp add: Insert_def d ti ts read_ref_def index_write_def index_read_def elements_def
        GetSize_def GetCapacity_def well_formed_def)
qed

section \<open>PushBack\<close>

lemma read_after_DoubleIfFull:
  assumes "well_formed s" and "DoubleIfFull dflt s = Inr s1"
  shows "read_ref s1 (capacity_v s1 \<noteq> capacity_v s) r
           = read_ref s (size_v s = capacity_v s) r"
proof (cases "size_v s = capacity_v s")
  case True
  then show ?thesis
    using assms DoubleIfFull_full [OF assms(1) True, of dflt]
    by (auto simp: read_ref_def split: cref.splits)
next
  case False
  then show ?thesis
    using assms(2) by (simp add: DoubleIfFull_room)
qed

text \<open>
  What \<open>PushBack\<close> does when the argument can be read after \<open>DoubleIfFull()\<close>: it refers
  to an object outside the raw array, or the container is not full.
\<close>

lemma PushBack_appends:
  assumes "well_formed s" and "read_ref s (size_v s = capacity_v s) r = Inr v"
  shows "\<exists>s'. PushBack dflt s r = Inr s' \<and> well_formed s'
           \<and> GetSize s' = GetSize s + 1
           \<and> index_read s' (GetSize s) = Inr v
           \<and> elements s' = elements s @ [v]
           \<and> GetCapacity s' =
               (if GetSize s = GetCapacity s
                then (if GetCapacity s = 0 then 1 else 2 * GetCapacity s)
                else GetCapacity s)"
proof -
  obtain s1 where s1: "DoubleIfFull dflt s = Inr s1" "well_formed s1"
    "size_v s1 = size_v s" "size_v s1 < capacity_v s1"
    "take (size_v s) (items_v s1) = take (size_v s) (items_v s)"
    "capacity_v s1 = (if size_v s = capacity_v s
           then (if capacity_v s = 0 then 1 else 2 * capacity_v s) else capacity_v s)"
    using DoubleIfFull_spec [OF assms(1)] by blast
  have rd: "read_ref s1 (capacity_v s1 \<noteq> capacity_v s) r = Inr v"
    using read_after_DoubleIfFull [OF assms(1) s1(1)] assms(2) by simp
  have len: "size_v s < length (items_v s1)"
    using s1 by (simp add: well_formed_def)
  have pb: "PushBack dflt s r
      = Inr (s1\<lparr>items_v := (items_v s1)[size_v s := v], size_v := size_v s + 1\<rparr>)"
    using len by (simp add: PushBack_def s1(1) rd index_write_def s1(3))
  have "take (Suc (size_v s)) ((items_v s1)[size_v s := v]) = take (size_v s) (items_v s) @ [v]"
    using len s1(5) by (simp add: take_Suc_conv_app_nth)
  then show ?thesis
    using s1(2,3,4,6) len
    by (simp add: pb index_read_def elements_def GetSize_def GetCapacity_def well_formed_def)
qed

lemma PushBack_appends_example:
  "\<exists>s'. PushBack 0 \<lparr>items_v = [1, 2 :: int], size_v = 2, capacity_v = 2\<rparr> (Outside 7) = Inr s'
          \<and> GetSize s' = 3 \<and> index_read s' 2 = Inr 7 \<and> elements s' = [1, 2, 7]
          \<and> GetCapacity s' = 4"
proof -
  have wf: "well_formed \<lparr>items_v = [1, 2 :: int], size_v = 2, capacity_v = 2\<rparr>"
    by (simp add: well_formed_def)
  have rd: "read_ref \<lparr>items_v = [1, 2 :: int], size_v = 2, capacity_v = 2\<rparr>
      (size_v \<lparr>items_v = [1, 2 :: int], size_v = 2, capacity_v = 2\<rparr>
         = capacity_v \<lparr>items_v = [1, 2 :: int], size_v = 2, capacity_v = 2\<rparr>) (Outside 7) = Inr 7"
    by (simp add: read_ref_def)
  show ?thesis
    using PushBack_appends [OF wf rd, of 0]
    by (auto simp: GetSize_def GetCapacity_def elements_def)
qed

lemma PushBack_aliased_full:
  assumes "well_formed s" and "size_v s = capacity_v s"
  shows "PushBack dflt s (Element k) = Inl Undefined"
  using DoubleIfFull_full [OF assms, of dflt]
  by (auto simp: PushBack_def read_ref_def)

text \<open>
  Claim C2. On every container state, \<open>PushBack(v)\<close> writes \<open>v\<close> at the index that was
  \<open>Size()\<close>, makes \<open>Size()\<close> one larger and leaves the elements stored before in place;
  a full container first doubles its capacity (1 from 0). The code does so whenever the
  argument can still be read after \<open>DoubleIfFull()\<close> (lemma \<open>PushBack_appends\<close>). It
  takes the argument by reference and reads it after \<open>Reserve\<close> has released the old raw
  array, so on a full container an argument that refers to an element of the container
  itself is read from released storage (lemma \<open>PushBack_aliased_full\<close>). The theorem
  evaluates the code on the container of one element that \<open>PushBack(1)\<close> builds from the
  empty one (size 1, capacity 1): \<open>v.PushBack(v[0])\<close> is undefined, where the claim has
  the elements \<open>[1, 1]\<close>.
\<close>

theorem PushBack_of_own_element_undefined:
  "PushBack (0::int) SimpleVector_default (Outside 1)
     = Inr \<lparr>items_v = [1], size_v = 1, capacity_v = 1\<rparr>
   \<and> read_ref \<lparr>items_v = [1 :: int], size_v = 1, capacity_v = 1\<rparr> False (Element 0) = Inr 1
   \<and> PushBack 0 \<lparr>items_v = [1 :: int], size_v = 1, capacity_v = 1\<rparr> (Element 0) = Inl Undefined"
  by (simp add: PushBack_def DoubleIfFull_def obs_defs SimpleVector_default_def ArrayPtr_empty_def
      Reserve_grow read_ref_def index_read_def index_write_def)

section \<open>Erase\<close>

lemma Erase_empty: "size_v s = 0 \<Longrightarrow> Erase s pos = Inl Undefined"
  by (cases pos)
     (auto simp: Erase_def obs_defs std_copy_within_def to_size_t_def Let_def)

lemma closed_up_take:
  assumes "Suc i < n" and "n \<le> length buf"
  shows "take (n - 1) (take i buf @ take (n - Suc i) (drop (Suc i) buf) @ drop (n - 1) buf)
           = take i buf @ take (n - Suc i) (drop (Suc i) buf)"
  using assms by simp

lemma copy_within_Erase:
  assumes "i < size_v s" and "size_v s \<le> length (items_v s)"
  obtains buf where
    "std_copy_within (items_v s) (ptr_add (ptr_add (begin_v s) (int i)) 1) (end_v s)
        (ptr_add (begin_v s) (int i)) = Inr buf"
    and "length buf = length (items_v s)"
    and "take (size_v s - 1) buf
           = take i (items_v s) @ take (size_v s - Suc i) (drop (Suc i) (items_v s))"
proof (cases "Suc i = size_v s")
  case True
  have "std_copy_within (items_v s) (ptr_add (ptr_add (begin_v s) (int i)) 1) (end_v s)
        (ptr_add (begin_v s) (int i)) = Inr (items_v s)"
    using True [symmetric] by (simp add: std_copy_within_def obs_defs)
  moreover have "take (size_v s - 1) (items_v s)
           = take i (items_v s) @ take (size_v s - Suc i) (drop (Suc i) (items_v s))"
    using True [symmetric] by simp
  ultimately show ?thesis using that by blast
next
  case False
  then have lt: "Suc i < size_v s" using assms(1) by simp
  let ?n = "size_v s" and ?b = "items_v s"
  have "std_copy_within ?b (ptr_add (ptr_add (begin_v s) (int i)) 1) (end_v s)
          (ptr_add (begin_v s) (int i))
          = Inr (take i ?b @ take (?n - Suc i) (drop (Suc i) ?b) @ drop (?n - 1) ?b)"
    using lt assms(2)
    by (simp add: std_copy_within_def std_copy_def obs_defs nat_diff_distrib' nat_add_distrib
        Suc_nat_eq_nat_zadd1)
  moreover have "length (take i ?b @ take (?n - Suc i) (drop (Suc i) ?b) @ drop (?n - 1) ?b)
                   = length ?b"
    using lt assms(2) by simp
  ultimately show ?thesis
    using that closed_up_take [OF lt assms(2)] by metis
qed

text \<open>
  Claim C4. On a non-empty container, for a position that refers to the live element at
  index \<open>i < Size()\<close>, \<open>Erase(position)\<close> returns normally, moves every element at an
  index above \<open>i\<close> one slot towards the head (the slot \<open>i\<close> is overwritten), makes
  \<open>Size()\<close> one smaller and leaves the capacity as it was. The returned iterator refers to
  index \<open>i\<close>, which now holds the old successor, or is \<open>end()\<close> of the container
  afterwards when the erased element was the last one.
\<close>

theorem Erase_closes_gap:
  assumes wf: "well_formed s" and lt: "i < GetSize s"
  shows "\<exists>s'. Erase s (ptr_add (begin_v s) (int i))
               = Inr (s', if i = GetSize s - 1 then end_v s' else ItemPtr (int i))
           \<and> well_formed s'
           \<and> GetSize s' = GetSize s - 1
           \<and> GetCapacity s' = GetCapacity s
           \<and> elements s' = take i (elements s) @ drop (Suc i) (elements s)
           \<and> (\<forall>j. i \<le> j \<and> j < GetSize s' \<longrightarrow> index_read s' j = index_read s (Suc j))"
proof -
  let ?n = "size_v s"
  have lt': "i < ?n" using lt by (simp add: GetSize_def)
  have len: "?n \<le> length (items_v s)"
    using wf by (simp add: well_formed_def)
  have d: "ptr_diff (ptr_add (begin_v s) (int i)) (begin_v s) = Inr (int i)"
    by (simp add: obs_defs)
  obtain buf where buf:
    "std_copy_within (items_v s) (ptr_add (ptr_add (begin_v s) (int i)) 1) (end_v s)
        (ptr_add (begin_v s) (int i)) = Inr buf"
    "length buf = length (items_v s)"
    "take (?n - 1) buf = take i (items_v s) @ take (?n - Suc i) (drop (Suc i) (items_v s))"
    using copy_within_Erase [OF lt' len] by blast
  have "take i (items_v s) = take i (take ?n (items_v s))"
    using lt' by (simp add: min_absorb1)
  then have pre_eq: "take i (items_v s) = take i (elements s)"
    by (simp add: elements_def GetSize_def)
  have "take (?n - Suc i) (drop (Suc i) (items_v s)) = drop (Suc i) (take ?n (items_v s))"
    by (simp add: drop_take)
  then have post_eq: "take (?n - Suc i) (drop (Suc i) (items_v s)) = drop (Suc i) (elements s)"
    by (simp add: elements_def GetSize_def)
  have el: "take (?n - 1) buf = take i (elements s) @ drop (Suc i) (elements s)"
    using buf(3) pre_eq post_eq by simp
  have nth: "buf ! j = items_v s ! Suc j" if "i \<le> j" "j < ?n - 1" for j
  proof -
    have "buf ! j = take (?n - 1) buf ! j"
      using that by simp
    also have "\<dots> = (take i (items_v s) @ take (?n - Suc i) (drop (Suc i) (items_v s))) ! j"
      by (simp only: buf(3))
    also have "\<dots> = take (?n - Suc i) (drop (Suc i) (items_v s)) ! (j - i)"
      using that lt' len by (simp add: nth_append)
    also have "\<dots> = items_v s ! Suc j"
      using that lt' len by simp
    finally show ?thesis .
  qed
  let ?s' = "s\<lparr>items_v := buf, size_v := ?n - 1\<rparr>"
  have res: "Erase s (ptr_add (begin_v s) (int i))
               = Inr (?s', if i = GetSize s - 1 then end_v ?s' else ItemPtr (int i))"
    using lt' by (auto simp: Erase_def d to_size_t_nat buf(1) Let_def GetSize_def)
  have reads: "\<forall>j. i \<le> j \<and> j < GetSize ?s' \<longrightarrow> index_read ?s' j = index_read s (Suc j)"
    using nth len buf(2) by (auto simp: index_read_def GetSize_def)
  show ?thesis
    using res reads el wf lt' buf(2)
    by (intro exI [of _ ?s']) (auto simp: well_formed_def elements_def GetSize_def GetCapacity_def)
qed

theorem Erase_closes_gap_witness:
  "well_formed \<lparr>items_v = [1, 2, 3, 0 :: int], size_v = 3, capacity_v = 4\<rparr>
   \<and> 1 < GetSize \<lparr>items_v = [1, 2, 3, 0 :: int], size_v = 3, capacity_v = 4\<rparr>
   \<and> (\<exists>s'. Erase \<lparr>items_v = [1, 2, 3, 0 :: int], size_v = 3, capacity_v = 4\<rparr> (ItemPtr 1)
              = Inr (s', ItemPtr 1)
          \<and> GetSize s' = 2 \<and> GetCapacity s' = 4 \<and> elements s' = [1, 3])"
proof -
  let ?s = "\<lparr>items_v = [1, 2, 3, 0 :: int], size_v = 3, capacity_v = 4\<rparr>"
  have wf: "well_formed ?s"
    by (simp add: well_formed_def)
  have lt: "1 < GetSize ?s"
    by (simp add: GetSize_def)
  show ?thesis
    using wf lt Erase_closes_gap [OF wf lt]
    by (auto simp: obs_defs elements_def)
qed

section \<open>At\<close>

text \<open>
  The non-const \<open>At\<close> throws \<open>std::out_of_range\<close> exactly when \<open>i \<ge> Size()\<close>, returns
  what the unchecked access returns otherwise, and leaves the object as it was.
\<close>

lemma At_checked:
  assumes "well_formed s"
  shows "(fst (At s i) = Inl OutOfRange \<longleftrightarrow> GetSize s \<le> i)
       \<and> (i < GetSize s \<longrightarrow> fst (At s i) = index_read s i \<and> fst (At s i) = Inr (elements s ! i))
       \<and> snd (At s i) = s"
  using assms
  by (simp add: At_def index_read_def elements_def GetSize_def well_formed_def)

lemma At_checked_example:
  "fst (At \<lparr>items_v = [1, 2, 3, 0 :: int], size_v = 3, capacity_v = 4\<rparr> 1) = Inr 2
   \<and> fst (At \<lparr>items_v = [1, 2, 3, 0 :: int], size_v = 3, capacity_v = 4\<rparr> 3) = Inl OutOfRange"
  by (simp add: At_def index_read_def GetSize_def)

lemma At_const_not_Some: "At_const s index \<noteq> Some y"
  using At_const.raw_induct [where P = "\<lambda>_ _ _. False", of s index y] by blast

lemma index_read_const_not_Some: "index_read_const s index \<noteq> Some y"
  using index_read_const.raw_induct [where P = "\<lambda>_ _ _. False", of s index y] by blast

lemma index_read_const_never_returns: "index_read_const s index = None"
  using index_read_const_not_Some [of s index] by (cases "index_read_const s index") auto

text \<open>
  Claim C7. On every container, \<open>At(i)\<close> throws \<open>std::out_of_range\<close> exactly when
  \<open>i \<ge> Size()\<close> and returns the element at index \<open>i\<close> otherwise, leaving the container
  as it was. The non-const overload does so (lemma \<open>At_checked\<close>). The const overload,
  the one a const container has, calls itself: on every container and for every index it
  neither returns an element nor throws, against the comment above it.
\<close>

theorem At_const_never_returns: "At_const s index = None"
  using At_const_not_Some [of s index] by (cases "At_const s index") auto

section \<open>PopBack, Clear and a shrinking Resize\<close>

text \<open>
  Claim C8. \<open>PopBack\<close> (a no-op on an empty container), \<open>Clear\<close> and \<open>Resize(n)\<close> with
  \<open>n < Size()\<close> leave \<open>Capacity()\<close> and the raw array as they were: none of them shrinks
  or reallocates the storage.
\<close>

theorem shrinking_keeps_capacity:
  "GetCapacity (PopBack s) = GetCapacity s \<and> items_v (PopBack s) = items_v s
   \<and> (IsEmpty s \<longrightarrow> PopBack s = s)
   \<and> GetCapacity (Clear s) = GetCapacity s \<and> items_v (Clear s) = items_v s
   \<and> (n < GetSize s \<longrightarrow>
        (\<exists>s'. Resize dflt n s = Inr s' \<and> GetCapacity s' = GetCapacity s
              \<and> items_v s' = items_v s))"
  by (simp add: PopBack_def Clear_def Resize_shrink GetCapacity_def GetSize_def)

theorem shrinking_keeps_capacity_witness:
  "IsEmpty (SimpleVector_default :: int SimpleVector)
   \<and> PopBack (SimpleVector_default :: int SimpleVector) = SimpleVector_default
   \<and> 1 < GetSize \<lparr>items_v = [1, 2, 3, 0 :: int], size_v = 3, capacity_v = 4\<rparr>
   \<and> (\<exists>s'. Resize 0 1 \<lparr>items_v = [1, 2, 3, 0 :: int], size_v = 3, capacity_v = 4\<rparr> = Inr s'
          \<and> GetCapacity s' = 4 \<and> items_v s' = [1, 2, 3, 0])"
  using shrinking_keeps_capacity [of "SimpleVector_default :: int SimpleVector" 0 0]
    shrinking_keeps_capacity [of "\<lparr>items_v = [1, 2, 3, 0 :: int], size_v = 3, capacity_v = 4\<rparr>" 1 0]
  by (simp add: obs_defs SimpleVector_default_def ArrayPtr_empty_def)

section \<open>The copy constructor\<close>

lemma copy_all:
  assumes "n \<le> length src"
  shows "std_copy src (ItemPtr 0) (ItemPtr (int n)) (replicate n dflt)
           (if n = 0 then NullPtr 0 else ItemPtr 0) = Inr (take n src)"
  using assms by (simp add: std_copy_def)

text \<open>
  Claim C10. The copy of a container has the size and the elements of its source, in
  order, and its capacity is the source's \<open>Size()\<close>, not the source's \<open>Capacity()\<close>:
  the copy of a container with excess capacity has a smaller capacity than its source.
\<close>

theorem copy_capacity_is_size:
  assumes "well_formed other"
  shows "\<exists>s'. SimpleVector_copy dflt other = Inr s'
           \<and> GetCapacity s' = GetSize other
           \<and> GetSize s' = GetSize other
           \<and> elements s' = elements other
           \<and> (GetSize other < GetCapacity other \<longrightarrow> GetCapacity s' < GetCapacity other)"
proof -
  have "size_v other \<le> length (items_v other)"
    using assms by (simp add: well_formed_def)
  then show ?thesis
    by (simp add: SimpleVector_copy_def SimpleVector_sized_def ArrayPtr_def cbegin_def cend_def
        obs_defs copy_all elements_def Let_def)
qed

theorem copy_capacity_is_size_witness:
  "well_formed \<lparr>items_v = [1, 2, 3, 0 :: int], size_v = 3, capacity_v = 4\<rparr>
   \<and> GetSize \<lparr>items_v = [1, 2, 3, 0 :: int], size_v = 3, capacity_v = 4\<rparr>
       < GetCapacity \<lparr>items_v = [1, 2, 3, 0 :: int], size_v = 3, capacity_v = 4\<rparr>
   \<and> (\<exists>s'. SimpleVector_copy 0 \<lparr>items_v = [1, 2, 3, 0 :: int], size_v = 3, capacity_v = 4\<rparr> = Inr s'
          \<and> GetCapacity s' = 3 \<and> GetSize s' = 3 \<and> elements s' = [1, 2, 3])"
proof -
  let ?s = "\<lparr>items_v = [1, 2, 3, 0 :: int], size_v = 3, capacity_v = 4\<rparr>"
  have wf: "well_formed ?s"
    by (simp add: well_formed_def)
  show ?thesis
    using wf copy_capacity_is_size [OF wf, of 0]
    by (auto simp: GetSize_def GetCapacity_def elements_def)
qed

section \<open>The size never exceeds the capacity\<close>

lemma std_fill_length: "std_fill buf p q v = Inr buf' \<Longrightarrow> length buf' = length buf"
  by (auto simp: std_fill_def split: if_splits ptr.splits)

lemma std_copy_length: "std_copy src p q dst r = Inr buf' \<Longrightarrow> length buf' = length dst"
  by (auto simp: std_copy_def split: if_splits ptr.splits)

lemma std_copy_within_length:
  "std_copy_within buf p q r = Inr buf' \<Longrightarrow> length buf' = length buf"
  by (auto simp: std_copy_within_def std_copy_length split: if_splits ptr.splits)

lemma std_move_backward_length:
  "std_move_backward buf p q r = Inr buf' \<Longrightarrow> length buf' = length buf"
  by (auto simp: std_move_backward_def std_copy_length split: if_splits ptr.splits)

lemma well_formed_sized: "well_formed (SimpleVector_sized dflt n)"
  by (simp add: well_formed_def SimpleVector_sized_def ArrayPtr_def)

lemma well_formed_default: "well_formed SimpleVector_default"
  by (simp add: well_formed_def SimpleVector_default_def ArrayPtr_empty_def)

lemma well_formed_items: "well_formed s \<Longrightarrow> length buf = length (items_v s) \<Longrightarrow>
    well_formed (s\<lparr>items_v := buf\<rparr>)"
  by (simp add: well_formed_def)

lemma well_formed_fill: "SimpleVector_fill dflt n v = Inr s \<Longrightarrow> well_formed s"
  by (auto simp: SimpleVector_fill_def Let_def well_formed_sized well_formed_items
      dest: std_fill_length split: sum.splits)

lemma well_formed_init: "SimpleVector_init dflt init = Inr s \<Longrightarrow> well_formed s"
  by (auto simp: SimpleVector_init_def Let_def well_formed_sized well_formed_items
      dest: std_copy_length split: sum.splits)

lemma well_formed_copy: "SimpleVector_copy dflt other = Inr s \<Longrightarrow> well_formed s"
  by (auto simp: SimpleVector_copy_def Let_def well_formed_sized well_formed_items
      dest: std_copy_length split: sum.splits)

lemma well_formed_Reserve:
  assumes "well_formed s" and "Reserve dflt k s = Inr s'"
  shows "well_formed s'"
proof (cases "k \<le> capacity_v s")
  case True
  then show ?thesis using assms by (simp add: Reserve_noop)
next
  case False
  then have "capacity_v s < k" by simp
  moreover have "size_v s \<le> length (items_v s)" "size_v s \<le> capacity_v s"
    using assms(1) by (simp_all add: well_formed_def)
  ultimately show ?thesis
    using assms by (auto simp: Reserve_grow well_formed_def)
qed

lemma well_formed_Resize:
  assumes "well_formed s" and "Resize dflt n s = Inr s'"
  shows "well_formed s'"
proof -
  consider "n < size_v s" | "n = size_v s" | "size_v s < n" "capacity_v s < n"
    | "size_v s < n" "n \<le> capacity_v s"
    by linarith
  then show ?thesis
  proof cases
    case 1
    then show ?thesis using assms by (auto simp: Resize_shrink well_formed_def)
  next
    case 2
    then show ?thesis using assms by (simp add: Resize_same)
  next
    case 3
    have "size_v s \<le> length (items_v s)" "size_v s \<le> capacity_v s"
      using assms(1) by (simp_all add: well_formed_def)
    then show ?thesis
      using 3 assms by (auto simp: Resize.simps obs_defs Reserve_grow well_formed_def)
  next
    case 4
    then show ?thesis
      using assms
      by (auto simp: Resize.simps GetSize_def GetCapacity_def well_formed_def
          dest: std_fill_length split: sum.splits)
  qed
qed

lemma well_formed_Insert:
  assumes "well_formed s" and "Insert dflt s pos v = Inr (s', it)"
  shows "well_formed s'"
proof -
  obtain s1 where s1: "DoubleIfFull dflt s = Inr s1" "well_formed s1"
    "size_v s1 < capacity_v s1"
    using DoubleIfFull_spec [OF assms(1)] by metis
  show ?thesis
    using assms(2) s1
    by (auto simp: Insert_def Let_def index_write_def well_formed_def
        dest: std_move_backward_length split: sum.splits if_splits)
qed

lemma well_formed_PushBack:
  assumes "well_formed s" and "PushBack dflt s v = Inr s'"
  shows "well_formed s'"
proof -
  obtain s1 where s1: "DoubleIfFull dflt s = Inr s1" "well_formed s1"
    "size_v s1 < capacity_v s1"
    using DoubleIfFull_spec [OF assms(1)] by metis
  show ?thesis
    using assms(2) s1
    by (auto simp: PushBack_def index_write_def well_formed_def split: sum.splits if_splits)
qed

lemma well_formed_Erase:
  assumes "well_formed s" and "Erase s pos = Inr (s', it)"
  shows "well_formed s'"
  using assms
  by (auto simp: Erase_def Let_def well_formed_def
      dest: std_copy_within_length split: sum.splits if_splits)

lemma reachable_well_formed: "reachable dflt s \<Longrightarrow> well_formed s"
proof (induction rule: reachable.induct)
  case r_default
  show ?case by (rule well_formed_default)
next
  case (r_sized n)
  show ?case by (rule well_formed_sized)
next
  case (r_fill n v s)
  then show ?case by (rule well_formed_fill)
next
  case (r_init init s)
  then show ?case by (rule well_formed_init)
next
  case (r_copy other s)
  then show ?case by (simp add: well_formed_copy)
next
  case (r_move other)
  then show ?case by (auto simp: SimpleVector_move_def ArrayPtr_empty_def well_formed_def)
next
  case (r_moved_from other)
  then show ?case by (auto simp: SimpleVector_move_def ArrayPtr_empty_def well_formed_def)
next
  case (r_reserve_ctor k s)
  then show ?case
    using well_formed_Reserve [OF well_formed_default] by (simp add: SimpleVector_reserve_def)
next
  case (r_PushBack s v s')
  then show ?case by (auto dest: well_formed_PushBack)
next
  case (r_PopBack s)
  then show ?case by (auto simp: PopBack_def well_formed_def)
next
  case (r_Insert s pos v s' it)
  then show ?case by (auto dest: well_formed_Insert)
next
  case (r_Erase s pos s' it)
  then show ?case by (auto dest: well_formed_Erase)
next
  case (r_Clear s)
  then show ?case by (auto simp: Clear_def well_formed_def)
next
  case (r_Resize s n s')
  then show ?case by (auto dest: well_formed_Resize)
next
  case (r_Reserve s k s')
  then show ?case by (auto dest: well_formed_Reserve)
next
  case (r_swap_fst a b)
  then show ?case by (auto simp: swap_v_def well_formed_def)
next
  case (r_swap_snd a b)
  then show ?case by (auto simp: swap_v_def well_formed_def)
next
  case (r_copy_assign s rhs same s')
  then show ?case
    by (auto simp: copy_assign_def swap_v_def well_formed_def
        dest!: well_formed_copy split: if_splits sum.splits)
next
  case (r_move_assign_fst s rhs same)
  then show ?case by (auto simp: move_assign_def ArrayPtr_empty_def well_formed_def)
next
  case (r_move_assign_snd s rhs same)
  then show ?case by (auto simp: move_assign_def ArrayPtr_empty_def well_formed_def)
qed

text \<open>
  Claim C9. \<open>Size() \<le> Capacity()\<close> holds in every reachable state: every constructor
  (default, sized, fill, initializer list, copy, move, reservation request) establishes
  it, and \<open>PushBack\<close>, \<open>PopBack\<close>, \<open>Insert\<close>, \<open>Erase\<close>, \<open>Clear\<close>, \<open>Resize\<close>,
  \<open>Reserve\<close>, \<open>swap\<close> and both assignments preserve it.
\<close>

theorem size_le_capacity: "reachable dflt s \<Longrightarrow> GetSize s \<le> GetCapacity s"
  using reachable_well_formed [of dflt s] by (simp add: well_formed_def GetSize_def GetCapacity_def)

theorem size_le_capacity_witness:
  "reachable (0::int) \<lparr>items_v = [7], size_v = 1, capacity_v = 1\<rparr>
   \<and> GetSize \<lparr>items_v = [7 :: int], size_v = 1, capacity_v = 1\<rparr>
       \<le> GetCapacity \<lparr>items_v = [7 :: int], size_v = 1, capacity_v = 1\<rparr>"
proof -
  have "PushBack (0::int) SimpleVector_default (Outside 7) = Inr \<lparr>items_v = [7], size_v = 1, capacity_v = 1\<rparr>"
    by (simp add: PushBack_def DoubleIfFull_def obs_defs SimpleVector_default_def ArrayPtr_empty_def Reserve_grow
        read_ref_def index_write_def)
  then have r: "reachable (0::int) \<lparr>items_v = [7], size_v = 1, capacity_v = 1\<rparr>"
    by (rule r_PushBack [OF r_default])
  show ?thesis
    using r size_le_capacity [OF r] by simp
qed

section \<open>Reserve\<close>

lemma Reserve_grow_observed:
  assumes "well_formed s" and "capacity_v s < k"
  shows "\<exists>s'. Reserve dflt k s = Inr s' \<and> GetCapacity s' = k
           \<and> take (GetSize s) (items_v s') = elements s
           \<and> GetSize s' = GetCapacity s"
proof -
  have "size_v s \<le> length (items_v s)" "size_v s \<le> capacity_v s"
    using assms(1) by (simp_all add: well_formed_def)
  then show ?thesis
    using assms(2) by (simp add: Reserve_grow GetSize_def GetCapacity_def elements_def)
qed

text \<open>
  Claim C1. \<open>Reserve(k)\<close> with \<open>k > Capacity()\<close> yields \<open>Capacity() = k\<close>, keeps the
  elements at the indices \<open>[0, old Size())\<close> in order and leaves \<open>Size()\<close> unchanged;
  with \<open>k \<le> Capacity()\<close> it changes nothing. The code does all of this except for the
  size (lemmas \<open>Reserve_noop\<close>, \<open>Reserve_grow\<close>, \<open>Reserve_grow_observed\<close>): the
  temporary is cut to \<open>GetCapacity()\<close> elements, not to \<open>GetSize()\<close>, and the swap adopts
  its size, so a growing \<open>Reserve\<close> leaves \<open>Size()\<close> equal to the old capacity. The theorem
  evaluates the code on the container that three \<open>PushBack\<close> calls build from the empty
  one (size 3, capacity 4): after \<open>Reserve(8)\<close> its size is 4.
\<close>

theorem Reserve_changes_size:
  "PushBack (0::int) SimpleVector_default (Outside 1)
       = Inr \<lparr>items_v = [1], size_v = 1, capacity_v = 1\<rparr>
   \<and> PushBack 0 \<lparr>items_v = [1], size_v = 1, capacity_v = 1\<rparr> (Outside 2)
       = Inr \<lparr>items_v = [1, 2], size_v = 2, capacity_v = 2\<rparr>
   \<and> PushBack 0 \<lparr>items_v = [1, 2], size_v = 2, capacity_v = 2\<rparr> (Outside 3)
       = Inr \<lparr>items_v = [1, 2, 3, 0], size_v = 3, capacity_v = 4\<rparr>
   \<and> Reserve 0 8 \<lparr>items_v = [1, 2, 3, 0 :: int], size_v = 3, capacity_v = 4\<rparr>
       = Inr \<lparr>items_v = [1, 2, 3, 0, 0, 0, 0, 0], size_v = 4, capacity_v = 8\<rparr>"
  by (simp add: PushBack_def DoubleIfFull_def obs_defs SimpleVector_default_def ArrayPtr_empty_def Reserve_grow
      read_ref_def index_write_def numeral_eq_Suc)

section \<open>Resize\<close>

lemma Resize_grow:
  assumes wf: "well_formed s" and lt: "size_v s < n"
    and ok: "capacity_v s < n \<or> size_v s \<noteq> 0"
  shows "\<exists>s'. Resize dflt n s = Inr s' \<and> well_formed s' \<and> GetSize s' = n
           \<and> elements s' = elements s @ replicate (n - size_v s) dflt
           \<and> GetCapacity s' = (if capacity_v s < n then n else capacity_v s)"
proof (cases "capacity_v s < n")
  case True
  have "size_v s \<le> length (items_v s)" "size_v s \<le> capacity_v s"
    using wf by (simp_all add: well_formed_def)
  then show ?thesis
    using True lt
    by (simp add: Resize.simps obs_defs Reserve_grow well_formed_def elements_def)
next
  case False
  then have "size_v s \<noteq> 0" "n \<le> length (items_v s)"
    using ok wf by (simp_all add: well_formed_def)
  then show ?thesis
    using False lt wf
    by (simp add: Resize.simps obs_defs std_fill_def well_formed_def elements_def)
qed

lemma Resize_empty_undefined:
  assumes "size_v s = 0" and "0 < n" and "n \<le> capacity_v s"
  shows "Resize dflt n s = Inl Undefined"
  using assms by (simp add: Resize.simps obs_defs std_fill_def)

text \<open>
  Claim C6. \<open>Resize(n)\<close> with \<open>n < Size()\<close> truncates; with \<open>n > Size()\<close> it keeps the
  elements, fills \<open>[old Size(), n)\<close> with default values, sets \<open>Size()\<close> to \<open>n\<close>, and
  the capacity becomes exactly \<open>n\<close> when \<open>n\<close> exceeded it; with \<open>n = Size()\<close> it changes
  nothing. The code does so (lemmas \<open>Resize_shrink\<close>, \<open>Resize_same\<close>, \<open>Resize_grow\<close>)
  unless the container is empty and \<open>0 < n \<le> Capacity()\<close>: then \<open>begin()\<close> is the null
  pointer and \<open>std::fill(begin() + size_, begin() + new_size, Type{})\<close> writes through
  it (lemma \<open>Resize_empty_undefined\<close>). The theorem evaluates the code on a container
  of three elements after \<open>Clear()\<close>: \<open>Resize(2)\<close> is undefined.
\<close>

theorem Resize_of_empty_undefined:
  "Clear (SimpleVector_sized (0::int) 3) = \<lparr>items_v = [0, 0, 0], size_v = 0, capacity_v = 3\<rparr>
   \<and> Resize 0 2 \<lparr>items_v = [0, 0, 0 :: int], size_v = 0, capacity_v = 3\<rparr> = Inl Undefined"
  by (simp add: Clear_def SimpleVector_sized_def ArrayPtr_def Resize.simps obs_defs std_fill_def
      numeral_eq_Suc)

section \<open>Insert\<close>

text \<open>
  Claim C3. For a position \<open>begin() + i\<close> with \<open>i \<le> Size()\<close>, \<open>Insert(position, v)\<close>
  grows the capacity if the container was full, moves the elements at the indices
  \<open>\<ge> i\<close> one slot towards the tail, writes \<open>v\<close> at index \<open>i\<close>, makes \<open>Size()\<close> one
  larger and returns an iterator to index \<open>i\<close>. For a value that is no element of
  the container, the code does so for every index that fits the \<open>int\<close> in which it
  keeps the index (lemma \<open>Insert_shifts\<close>); \<open>Erase\<close> keeps it in a \<open>size_t\<close>. From \<open>i = 2 ^ 31\<close> on the conversion wraps to a negative index.
  The theorem evaluates the code on a container of \<open>2 ^ 31\<close> elements with one spare
  slot: inserting at \<open>begin() + 2 ^ 31\<close>, which is \<open>end()\<close>, is undefined, since
  \<open>std::move_backward\<close> starts \<open>2 ^ 31\<close> slots before the raw array.
\<close>

theorem Insert_int_index_wraps:
  "Reserve 0 2147483649 (SimpleVector_sized (0::int) 2147483648)
     = Inr \<lparr>items_v = replicate 2147483649 0, size_v = 2147483648, capacity_v = 2147483649\<rparr>
   \<and> ptr_add (begin_v \<lparr>items_v = replicate 2147483649 (0::int), size_v = 2147483648,
                       capacity_v = 2147483649\<rparr>) 2147483648
     = end_v \<lparr>items_v = replicate 2147483649 (0::int), size_v = 2147483648,
               capacity_v = 2147483649\<rparr>
   \<and> Insert 0 \<lparr>items_v = replicate 2147483649 (0::int), size_v = 2147483648,
                 capacity_v = 2147483649\<rparr> (ItemPtr 2147483648) (Outside 7) = Inl Undefined"
proof -
  have "replicate (2147483648 + 1) (0::int) = replicate 2147483648 0 @ replicate 1 0"
    by (rule replicate_add)
  then have "replicate 2147483648 (0::int) @ replicate (2147483649 - 2147483648) 0
          = replicate 2147483649 0"
    by simp
  then have "Reserve 0 2147483649 (SimpleVector_sized (0::int) 2147483648)
     = Inr \<lparr>items_v = replicate 2147483649 0, size_v = 2147483648, capacity_v = 2147483649\<rparr>"
    by (simp add: Reserve_grow SimpleVector_sized_def ArrayPtr_def)
  then show ?thesis
    by (simp add: Insert_def DoubleIfFull_def obs_defs to_int_def std_move_backward_def
        std_copy_def)
qed

text \<open>
  Two more inputs on which \<open>Insert\<close> leaves what claim C3 states. The value is read after
  the shift, so a value that refers to an element at or after the position is read from
  the shifted array: inserting \<open>v[2]\<close> at \<open>begin()\<close> of \<open>[1, 2, 3]\<close> stores 2, not 3.
  And \<open>cbegin()\<close> of an empty container with capacity is not \<open>begin()\<close>, which is null.
\<close>

lemma Insert_of_own_element:
  "Insert 0 \<lparr>items_v = [1, 2, 3, 0 :: int], size_v = 3, capacity_v = 4\<rparr> (ItemPtr 0) (Element 2)
     = Inr (\<lparr>items_v = [2, 1, 2, 3], size_v = 4, capacity_v = 4\<rparr>, ItemPtr 0)"
  by (simp add: Insert_def DoubleIfFull_def obs_defs to_int_def to_size_t_def
      std_move_backward_def std_copy_def read_ref_def index_read_def index_write_def)

lemma Insert_cbegin_of_cleared_undefined:
  "Insert 0 (Clear (SimpleVector_sized (0::int) 3)) (cbegin (Clear (SimpleVector_sized 0 3)))
     (Outside 7) = Inl Undefined"
  by (simp add: Insert_def Clear_def cbegin_def obs_defs)

lemma DoubleIfFull_size: "DoubleIfFull dflt s = Inr s1 \<Longrightarrow> size_v s1 = size_v s"
  by (auto simp: DoubleIfFull_def Reserve.simps Resize_shrink SimpleVector_sized_def swap_v_def
      GetSize_def GetCapacity_def split: if_splits sum.splits)

lemma move_backward_at_end:
  "std_move_backward buf (ptr_add (begin_v s1) (int (size_v s1))) (end_v s1) r = Inr buf"
  by (simp add: std_move_backward_def obs_defs)

lemma Insert_end_PushBack_small:
  assumes "size_v s < 2 ^ 31"
  shows "map_sum id fst (Insert dflt s (end_v s) v) = PushBack dflt s v"
proof -
  have d: "ptr_diff (end_v s) (begin_v s) = Inr (int (size_v s))"
    by (simp add: obs_defs)
  have "int (size_v s) < 2 ^ 31"
    using assms by (metis of_nat_less_iff of_nat_numeral of_nat_power)
  then have ti: "to_int (int (size_v s)) = int (size_v s)"
    by (simp add: to_int_small)
  show ?thesis
  proof (cases "DoubleIfFull dflt s")
    case (Inl e)
    then show ?thesis
      by (simp add: Insert_def PushBack_def d)
  next
    case (Inr s1)
    have sz: "size_v s1 = size_v s"
      using Inr by (rule DoubleIfFull_size)
    show ?thesis
      using move_backward_at_end [of "items_v s1" s1]
      by (simp add: Insert_def PushBack_def d ti to_size_t_nat Inr sz index_write_def
          split: sum.splits)
  qed
qed

text \<open>
  Claim C5. \<open>Insert(end(), v)\<close> leaves the container in the state in which
  \<open>PushBack(v)\<close> leaves it. The code does so while \<open>Size() < 2 ^ 31\<close> (lemma
  \<open>Insert_end_PushBack_small\<close>). On the container of \<open>2 ^ 31\<close> elements with one
  spare slot \<open>PushBack(7)\<close> stores the value at index \<open>2 ^ 31\<close>, whereas
  \<open>Insert(end(), 7)\<close> is undefined, by the \<open>int\<close> index of \<open>Insert\<close>.
\<close>

theorem Insert_end_is_not_PushBack:
  "Insert 0 \<lparr>items_v = replicate 2147483649 (0::int), size_v = 2147483648,
              capacity_v = 2147483649\<rparr>
      (end_v \<lparr>items_v = replicate 2147483649 (0::int), size_v = 2147483648,
               capacity_v = 2147483649\<rparr>) (Outside 7) = Inl Undefined
   \<and> PushBack 0 \<lparr>items_v = replicate 2147483649 (0::int), size_v = 2147483648,
                   capacity_v = 2147483649\<rparr> (Outside 7)
       = Inr \<lparr>items_v = (replicate 2147483649 (0::int))[2147483648 := 7],
               size_v = 2147483649, capacity_v = 2147483649\<rparr>"
  by (simp add: Insert_def PushBack_def DoubleIfFull_def obs_defs to_int_def
      std_move_backward_def std_copy_def read_ref_def index_write_def)

end
